theory Spec2Isabelle
  imports Complex_Main "HOL-Library.AList"
begin

section \<open>Numbers of the analysis engine\<close>

text \<open>
  The engine of \<^verbatim>\<open>app.py\<close> computes on 64-bit floating-point numbers. A value is
  modelled as a real number, one of the two infinities, or the missing value NaN. The
  operations \<open>fl_add\<close>, \<open>fl_mul\<close>, \<open>fl_div\<close> are the IEEE ones on these four kinds
  of value before rounding: a finite result is the exact real. The sign of a zero is not
  tracked; a zero divisor counts as positive. The indicator series (moving averages, RSI)
  are studied on these exact operations. The percentages that the code rounds to two
  decimals (performance, momentum) are computed with the rounded operations \<open>d_sub\<close>,
  \<open>d_mul\<close>, \<open>d_div\<close> defined below, since there the last bit of the double decides
  the digit.
\<close>

datatype fl = Num real | PInf | NInf | NaN

fun fl_neg :: "fl \<Rightarrow> fl" where
  "fl_neg (Num a) = Num (- a)"
| "fl_neg PInf = NInf"
| "fl_neg NInf = PInf"
| "fl_neg NaN = NaN"

fun fl_add :: "fl \<Rightarrow> fl \<Rightarrow> fl" where
  "fl_add NaN y = NaN"
| "fl_add x NaN = NaN"
| "fl_add (Num a) (Num b) = Num (a + b)"
| "fl_add PInf NInf = NaN"
| "fl_add NInf PInf = NaN"
| "fl_add PInf y = PInf"
| "fl_add x PInf = PInf"
| "fl_add NInf y = NInf"
| "fl_add x NInf = NInf"

definition fl_sub :: "fl \<Rightarrow> fl \<Rightarrow> fl" where
  "fl_sub x y = fl_add x (fl_neg y)"

fun fl_pos :: "fl \<Rightarrow> bool" where
  "fl_pos (Num a) = (0 < a)"
| "fl_pos PInf = True"
| "fl_pos NInf = False"
| "fl_pos NaN = False"

fun fl_mul :: "fl \<Rightarrow> fl \<Rightarrow> fl" where
  "fl_mul NaN y = NaN"
| "fl_mul x NaN = NaN"
| "fl_mul (Num a) (Num b) = Num (a * b)"
| "fl_mul x y =
     (if x = Num 0 \<or> y = Num 0 then NaN
      else if fl_pos x = fl_pos y then PInf else NInf)"

fun fl_div :: "fl \<Rightarrow> fl \<Rightarrow> fl" where
  "fl_div NaN y = NaN"
| "fl_div x NaN = NaN"
| "fl_div (Num a) (Num b) =
     (if b = 0 then (if a = 0 then NaN else if 0 < a then PInf else NInf)
      else Num (a / b))"
| "fl_div (Num a) y = Num 0"
| "fl_div PInf (Num b) = (if 0 \<le> b then PInf else NInf)"
| "fl_div NInf (Num b) = (if 0 \<le> b then NInf else PInf)"
| "fl_div x y = NaN"

text \<open>Comparisons: every comparison with NaN is false.\<close>

fun fl_lt :: "fl \<Rightarrow> fl \<Rightarrow> bool" where
  "fl_lt NaN y = False"
| "fl_lt x NaN = False"
| "fl_lt (Num a) (Num b) = (a < b)"
| "fl_lt x NInf = False"
| "fl_lt PInf y = False"
| "fl_lt x y = True"

definition fl_gt :: "fl \<Rightarrow> fl \<Rightarrow> bool" where
  "fl_gt x y = fl_lt y x"

fun fl_le :: "fl \<Rightarrow> fl \<Rightarrow> bool" where
  "fl_le NaN y = False"
| "fl_le x NaN = False"
| "fl_le (Num a) (Num b) = (a \<le> b)"
| "fl_le NInf y = True"
| "fl_le x PInf = True"
| "fl_le x y = False"

text \<open>
  The nearest integer, a tie going to the even neighbour (\<^verbatim>\<open>rint\<close>).
\<close>

definition rint :: "real \<Rightarrow> int" where
  "rint x =
     (let f = \<lfloor>x\<rfloor>; d = x - of_int f
      in if d < 1 / 2 then f else if 1 / 2 < d then f + 1
         else if even f then f else f + 1)"

text \<open>
  The double nearest to a real, ties to even: 53 significant bits at the exponent of the
  number, the exponent not below -1022 (subnormal numbers), and an infinity when the
  rounded magnitude reaches \<open>2 ^ 1024\<close>.
\<close>

definition dbl :: "real \<Rightarrow> fl" where
  "dbl x =
     (if x = 0 then Num 0
      else
        (let e = max \<lfloor>log 2 \<bar>x\<bar>\<rfloor> (- 1022);
             q = 2 powr (of_int e - 52);
             r = of_int (rint (x / q)) * q
         in if 2 powr 1024 \<le> \<bar>r\<bar> then (if 0 < x then PInf else NInf) else Num r))"

fun fl_round :: "fl \<Rightarrow> fl" where
  "fl_round (Num a) = dbl a"
| "fl_round x = x"

definition d_sub :: "fl \<Rightarrow> fl \<Rightarrow> fl" where
  "d_sub x y = fl_round (fl_sub x y)"

definition d_mul :: "fl \<Rightarrow> fl \<Rightarrow> fl" where
  "d_mul x y = fl_round (fl_mul x y)"

definition d_div :: "fl \<Rightarrow> fl \<Rightarrow> fl" where
  "d_div x y = fl_round (fl_div x y)"

text \<open>
  \<^verbatim>\<open>round(x, 2)\<close> on a numpy float, as the cells of a price column are: the number is
  multiplied by 100, rounded to the nearest integer (ties to even) and divided by 100,
  each step in double arithmetic. An infinity or NaN comes back as it is.
\<close>

fun fl_rint :: "fl \<Rightarrow> fl" where
  "fl_rint (Num a) = Num (of_int (rint a))"
| "fl_rint x = x"

definition round2 :: "fl \<Rightarrow> fl" where
  "round2 x = d_div (fl_rint (d_mul x (Num 100))) (Num 100)"

text \<open>
  \<^verbatim>\<open>round(x, 2)\<close> on a Python float: the two-decimal number nearest to the exact value
  of the double (ties to even), then the double nearest to that number.
\<close>

fun py_float_round2 :: "fl \<Rightarrow> fl" where
  "py_float_round2 (Num a) = dbl (of_int (rint (a * 100)) / 100)"
| "py_float_round2 x = x"

section \<open>Python values and errors\<close>

datatype py_error = KeyError | IndexError | ZeroDivisionError | TypeError

text \<open>A field of the fundamentals dictionary: \<^verbatim>\<open>None\<close> or a number.\<close>

datatype pyval = PyNone | PyNum fl

section \<open>Ratings\<close>

text \<open>
  \<^verbatim>\<open>
  def pe_rating(pe):
      if pe is None or pe <= 0: return "N/A"
      if pe < 20: return "Excellent"
      if pe <= 35: return "Good"
      return "Poor"
  \<close>
\<close>

fun pe_rating :: "pyval \<Rightarrow> string" where
  "pe_rating PyNone = ''N/A''"
| "pe_rating (PyNum pe) =
     (if fl_le pe (Num 0) then ''N/A''
      else if fl_lt pe (Num 20) then ''Excellent''
      else if fl_le pe (Num 35) then ''Good''
      else ''Poor'')"

section \<open>Fundamentals: momentum\<close>

text \<open>
  The momentum lines of the analysis script, on the fundamentals dictionary \<^verbatim>\<open>info\<close>:
  \<^verbatim>\<open>
  current = info.get("currentPrice", 0)
  prev = info.get("previousClose", current)
  momentum = round(((current - prev) / prev) * 100, 2)
  \<close>
  Python's own division raises \<^verbatim>\<open>ZeroDivisionError\<close> on a zero divisor, for integers
  and floats alike; arithmetic on \<^verbatim>\<open>None\<close> raises \<^verbatim>\<open>TypeError\<close>. No handler
  encloses these lines. The numbers are doubles (or integers small enough to be doubles),
  and each operation gives the double nearest to its exact result.
\<close>

definition bind_err :: "py_error + 'a \<Rightarrow> ('a \<Rightarrow> py_error + 'b) \<Rightarrow> py_error + 'b" where
  "bind_err r f = (case r of Inl e \<Rightarrow> Inl e | Inr v \<Rightarrow> f v)"

definition dict_get :: "(string \<rightharpoonup> pyval) \<Rightarrow> string \<Rightarrow> pyval \<Rightarrow> pyval" where
  "dict_get d k dflt = (case d k of None \<Rightarrow> dflt | Some v \<Rightarrow> v)"

fun py_sub :: "pyval \<Rightarrow> pyval \<Rightarrow> py_error + pyval" where
  "py_sub (PyNum a) (PyNum b) = Inr (PyNum (d_sub a b))"
| "py_sub x y = Inl TypeError"

fun py_truediv :: "pyval \<Rightarrow> pyval \<Rightarrow> py_error + pyval" where
  "py_truediv (PyNum a) (PyNum b) =
     (if b = Num 0 then Inl ZeroDivisionError else Inr (PyNum (d_div a b)))"
| "py_truediv x y = Inl TypeError"

fun py_mul :: "pyval \<Rightarrow> pyval \<Rightarrow> py_error + pyval" where
  "py_mul (PyNum a) (PyNum b) = Inr (PyNum (d_mul a b))"
| "py_mul x y = Inl TypeError"

fun py_round2 :: "pyval \<Rightarrow> py_error + pyval" where
  "py_round2 (PyNum a) = Inr (PyNum (py_float_round2 a))"
| "py_round2 PyNone = Inl TypeError"

definition momentum :: "(string \<rightharpoonup> pyval) \<Rightarrow> py_error + pyval" where
  "momentum info =
     (let current = dict_get info ''currentPrice'' (PyNum (Num 0));
          prev = dict_get info ''previousClose'' current
      in bind_err (py_sub current prev) (\<lambda>d.
         bind_err (py_truediv d prev) (\<lambda>q.
         bind_err (py_mul q (PyNum (Num 100))) py_round2)))"

section \<open>Price frames\<close>

text \<open>
  The price history is a pandas DataFrame: a number of rows and named columns of that
  many floating-point cells, kept in column order. Reading a column that is absent
  raises \<^verbatim>\<open>KeyError\<close>; assigning a column overwrites it in place or appends it, and
  changes the frame the caller holds.
\<close>

record dataframe =
  nrows :: nat
  columns :: "(string \<times> fl list) list"

definition wf_frame :: "dataframe \<Rightarrow> bool" where
  "wf_frame df = list_all (\<lambda>kc. length (snd kc) = nrows df) (columns df)"

definition getcol :: "dataframe \<Rightarrow> string \<Rightarrow> py_error + fl list" where
  "getcol df k = (case map_of (columns df) k of None \<Rightarrow> Inl KeyError | Some c \<Rightarrow> Inr c)"

definition setcol :: "dataframe \<Rightarrow> string \<Rightarrow> fl list \<Rightarrow> dataframe" where
  "setcol df k c = df\<lparr>columns := AList.update k c (columns df)\<rparr>"

text \<open>
  Positional access \<^verbatim>\<open>.iloc[i]\<close>: a negative position counts from the end, a position
  outside the data raises \<^verbatim>\<open>IndexError\<close>. On a series it gives a cell, on a frame the
  row as a mapping from column names to cells.
\<close>

definition position :: "nat \<Rightarrow> int \<Rightarrow> py_error + nat" where
  "position n i =
     (if 0 \<le> i then (if i < int n then Inr (nat i) else Inl IndexError)
      else (if - int n \<le> i then Inr (nat (int n + i)) else Inl IndexError))"

definition iloc :: "fl list \<Rightarrow> int \<Rightarrow> py_error + fl" where
  "iloc xs i = bind_err (position (length xs) i) (\<lambda>j. Inr (xs ! j))"

definition iloc_row :: "dataframe \<Rightarrow> int \<Rightarrow> py_error + (string \<rightharpoonup> fl)" where
  "iloc_row df i =
     bind_err (position (nrows df) i)
       (\<lambda>j. Inr (\<lambda>k. map_option (\<lambda>c. c ! j) (map_of (columns df) k)))"

definition row_get :: "(string \<rightharpoonup> fl) \<Rightarrow> string \<Rightarrow> py_error + fl" where
  "row_get row k = (case row k of None \<Rightarrow> Inl KeyError | Some v \<Rightarrow> Inr v)"

section \<open>Series operations of the library\<close>

text \<open>
  The window operations of the library first replace the infinite cells of their input
  by NaN.
\<close>

definition prep_values :: "fl list \<Rightarrow> fl list" where
  "prep_values xs = map (\<lambda>x. if x = PInf \<or> x = NInf then NaN else x) xs"

text \<open>
  \<^verbatim>\<open>s.rolling(w).mean()\<close>: at each position the mean of the trailing \<open>w\<close> cells, and
  NaN where fewer than \<open>w\<close> of them are present (the window reaches before the first
  cell, or holds a NaN).
\<close>

primrec fl_sum :: "fl list \<Rightarrow> fl" where
  "fl_sum [] = Num 0"
| "fl_sum (x # xs) = fl_add x (fl_sum xs)"

definition trailing :: "nat \<Rightarrow> fl list \<Rightarrow> nat \<Rightarrow> fl list" where
  "trailing w xs i = drop (Suc i - w) (take (Suc i) xs)"

definition roll_mean_at :: "nat \<Rightarrow> fl list \<Rightarrow> nat \<Rightarrow> fl" where
  "roll_mean_at w xs i =
     (let obs = filter (\<lambda>x. x \<noteq> NaN) (trailing w xs i)
      in if length obs < w then NaN else fl_div (fl_sum obs) (Num (real (length obs))))"

definition rolling_mean :: "nat \<Rightarrow> fl list \<Rightarrow> fl list" where
  "rolling_mean w xs = map (roll_mean_at w (prep_values xs)) [0..<length xs]"

text \<open>
  \<^verbatim>\<open>s.ewm(span=n, adjust=False).mean()\<close>: the library's pass over the prepared series.
  It keeps the current average and the weight of the past; a NaN cell ages the past
  without adding an observation, and a cell equal to the average leaves it as it is.
\<close>

fun ewm_step :: "real \<Rightarrow> fl \<times> real \<Rightarrow> fl \<Rightarrow> fl \<times> real" where
  "ewm_step \<alpha> (weighted, old_wt) cur =
     (if weighted \<noteq> NaN then
        (let aged = old_wt * (1 - \<alpha>)
         in if cur \<noteq> NaN then
              ((if weighted \<noteq> cur
                then fl_div (fl_add (fl_mul (Num aged) weighted) (fl_mul (Num \<alpha>) cur))
                            (Num (aged + \<alpha>))
                else weighted), 1)
            else (weighted, aged))
      else if cur \<noteq> NaN then (cur, old_wt)
      else (weighted, old_wt))"

fun ewm_loop :: "real \<Rightarrow> fl \<times> real \<Rightarrow> fl list \<Rightarrow> fl list" where
  "ewm_loop \<alpha> st [] = []"
| "ewm_loop \<alpha> st (cur # rest) =
     (let st' = ewm_step \<alpha> st cur in fst st' # ewm_loop \<alpha> st' rest)"

definition ewm_mean :: "nat \<Rightarrow> fl list \<Rightarrow> fl list" where
  "ewm_mean n xs =
     (case prep_values xs of [] \<Rightarrow> []
      | x # rest \<Rightarrow> x # ewm_loop (2 / (real n + 1)) (x, 1) rest)"

text \<open>
  \<^verbatim>\<open>s.diff()\<close> (first cell NaN), \<^verbatim>\<open>s.mask(cond, v)\<close> (the cells where the condition
  holds replaced by \<open>v\<close>), and the cell-wise operations.
\<close>

definition diff :: "fl list \<Rightarrow> fl list" where
  "diff xs = (case xs of [] \<Rightarrow> [] | x # rest \<Rightarrow> NaN # map2 fl_sub rest xs)"

definition mask :: "fl list \<Rightarrow> bool list \<Rightarrow> fl \<Rightarrow> fl list" where
  "mask xs cond v = map2 (\<lambda>x c. if c then v else x) xs cond"

definition rsi_of_rs :: "fl \<Rightarrow> fl" where
  "rsi_of_rs rs = fl_sub (Num 100) (fl_div (Num 100) (fl_add (Num 1) rs))"

section \<open>Buying recommendation\<close>

text \<open>
  \<^verbatim>\<open>
  def buying_recommendation(df):
      try:
          df["SMA20"] = df["Close"].rolling(20).mean()
          df["EMA20"] = df["Close"].ewm(span=20, adjust=False).mean()
          delta = df["Close"].diff()
          gain = delta.mask(delta < 0, 0).rolling(14).mean()
          loss = (-delta.mask(delta > 0, 0)).rolling(14).mean()
          rs = gain / loss
          df["RSI"] = 100 - (100 / (1 + rs))

          latest = df.iloc[-1]
          score = 0
          score += 40 if latest["Close"] > latest["SMA20"] else 0
          score += 40 if latest["Close"] > latest["EMA20"] else 0
          score += 20 if latest["RSI"] < 70 else 0

          return min(score, 100)
      except:
          return 50
  \<close>
  The body of the \<^verbatim>\<open>try\<close> returns the score or the error raised, together with the
  frame as the body left it: the columns assigned before an error stay assigned. The
  column "Close" is read once; the later reads see the same cells, since the columns
  assigned in between have other names.
\<close>

definition sma20 :: "fl list \<Rightarrow> fl list" where
  "sma20 close = rolling_mean 20 close"

definition ema20 :: "fl list \<Rightarrow> fl list" where
  "ema20 close = ewm_mean 20 close"

definition up_moves :: "fl list \<Rightarrow> fl list" where
  "up_moves delta = mask delta (map (\<lambda>d. fl_lt d (Num 0)) delta) (Num 0)"

definition down_moves :: "fl list \<Rightarrow> fl list" where
  "down_moves delta = map fl_neg (mask delta (map (\<lambda>d. fl_gt d (Num 0)) delta) (Num 0))"

definition rsi14 :: "fl list \<Rightarrow> fl list" where
  "rsi14 close =
     (let delta = diff close;
          gain = rolling_mean 14 (up_moves delta);
          loss = rolling_mean 14 (down_moves delta);
          rs = map2 fl_div gain loss
      in map rsi_of_rs rs)"

definition score_of_row :: "(string \<rightharpoonup> fl) \<Rightarrow> py_error + int" where
  "score_of_row latest =
     bind_err (row_get latest ''Close'') (\<lambda>c1.
     bind_err (row_get latest ''SMA20'') (\<lambda>sma.
     bind_err (row_get latest ''Close'') (\<lambda>c2.
     bind_err (row_get latest ''EMA20'') (\<lambda>ema.
     bind_err (row_get latest ''RSI'') (\<lambda>rsi.
       Inr (min (0 + (if fl_gt c1 sma then 40 else 0)
                   + (if fl_gt c2 ema then 40 else 0)
                   + (if fl_lt rsi (Num 70) then 20 else 0)) 100))))))"

definition buying_recommendation_body :: "dataframe \<Rightarrow> (py_error + int) \<times> dataframe" where
  "buying_recommendation_body df =
     (case getcol df ''Close'' of
        Inl e \<Rightarrow> (Inl e, df)
      | Inr close \<Rightarrow>
          (let df1 = setcol df ''SMA20'' (sma20 close);
               df2 = setcol df1 ''EMA20'' (ema20 close);
               df3 = setcol df2 ''RSI'' (rsi14 close)
           in (bind_err (iloc_row df3 (- 1)) score_of_row, df3)))"

definition buying_recommendation :: "dataframe \<Rightarrow> int \<times> dataframe" where
  "buying_recommendation df =
     (case buying_recommendation_body df of
        (Inl e, df') \<Rightarrow> (50, df')
      | (Inr score, df') \<Rightarrow> (score, df'))"

section \<open>Performance windows\<close>

text \<open>
  \<^verbatim>\<open>
  def performance(df):
      perf = {}
      for days, label in [(21,"1 Month"), (63,"3 Month"), (126,"6 Month")]:
          if len(df) > days:
              perf[label] = round(((df["Close"].iloc[-1] - df["Close"].iloc[-days])
                                   / df["Close"].iloc[-days]) * 100, 2)
          else:
              perf[label] = "N/A"
      return perf
  \<close>
  The result is a dictionary, kept in insertion order; an entry is a float or the string
  "N/A". The cells are numpy floats: their division by zero gives an infinity or NaN and
  raises nothing, and each operation gives the double nearest to its exact result.
\<close>

datatype perf_val = Pct fl | NA

definition pct_change :: "fl \<Rightarrow> fl \<Rightarrow> fl" where
  "pct_change latest old = round2 (d_mul (d_div (d_sub latest old) old) (Num 100))"

fun performance_loop ::
  "dataframe \<Rightarrow> (nat \<times> string) list \<Rightarrow> (string \<times> perf_val) list
     \<Rightarrow> py_error + (string \<times> perf_val) list"
where
  "performance_loop df [] perf = Inr perf"
| "performance_loop df ((days, label) # rest) perf =
     (if days < nrows df then
        bind_err (getcol df ''Close'') (\<lambda>close.
        bind_err (iloc close (- 1)) (\<lambda>latest.
        bind_err (iloc close (- int days)) (\<lambda>old.
          performance_loop df rest (AList.update label (Pct (pct_change latest old)) perf))))
      else performance_loop df rest (AList.update label NA perf))"

definition performance :: "dataframe \<Rightarrow> py_error + (string \<times> perf_val) list" where
  "performance df =
     performance_loop df [(21, ''1 Month''), (63, ''3 Month''), (126, ''6 Month'')] []"

section \<open>Sample inputs\<close>

text \<open>
  A frame as fetched, with its close prices only; the 21 closes rising by 1 from 100 to
  120; 22 closes with 160 at 21 bars from the end and 183 at the end; a flat series of
  15 closes.
\<close>

definition price_frame :: "fl list \<Rightarrow> dataframe" where
  "price_frame close = \<lparr>nrows = length close, columns = [(''Close'', close)]\<rparr>"

definition rising_closes :: "real list" where
  "rising_closes =
     [100, 101, 102, 103, 104, 105, 106, 107, 108, 109, 110, 111, 112, 113, 114, 115,
      116, 117, 118, 119, 120]"

definition rising21 :: "fl list" where
  "rising21 = map Num rising_closes"

definition climb22 :: "fl list" where
  "climb22 =
     [Num 159, Num 160, Num 161, Num 162, Num 163, Num 164, Num 165, Num 166, Num 167,
      Num 168, Num 169, Num 170, Num 171, Num 172, Num 173, Num 174, Num 175, Num 176,
      Num 177, Num 178, Num 179, Num 183]"

definition flat_closes :: "real list" where
  "flat_closes = replicate 15 100"

definition flat15 :: "fl list" where
  "flat15 = map Num flat_closes"

section \<open>Values that are not negative\<close>

text \<open>
  The cells of the averaged gains and losses of the RSI are of this kind: a real that
  is at least 0, plus infinity, or NaN.
\<close>

fun not_neg :: "fl \<Rightarrow> bool" where
  "not_neg (Num a) = (0 \<le> a)"
| "not_neg PInf = True"
| "not_neg NInf = False"
| "not_neg NaN = True"

section \<open>Properties of the P/E rating\<close>

text \<open>
  C10. The P/E rating of a missing value or of a number at most 0 is "N/A"; of a number
  strictly between 0 and 20 it is "Excellent"; of a number from 20 to 35, both included,
  it is "Good"; of a number above 35 it is "Poor". So 15 is rated "Excellent", 25 "Good",
  40 "Poor", and -5 and None "N/A".
\<close>

theorem pe_rating_classes:
  "pe_rating PyNone = ''N/A''
   \<and> (fl_le pe (Num 0) \<longrightarrow> pe_rating (PyNum pe) = ''N/A'')
   \<and> (fl_lt (Num 0) pe \<and> fl_lt pe (Num 20) \<longrightarrow> pe_rating (PyNum pe) = ''Excellent'')
   \<and> (fl_le (Num 20) pe \<and> fl_le pe (Num 35) \<longrightarrow> pe_rating (PyNum pe) = ''Good'')
   \<and> (fl_lt (Num 35) pe \<longrightarrow> pe_rating (PyNum pe) = ''Poor'')
   \<and> pe_rating (PyNum (Num 15)) = ''Excellent''
   \<and> pe_rating (PyNum (Num 25)) = ''Good''
   \<and> pe_rating (PyNum (Num 40)) = ''Poor''
   \<and> pe_rating (PyNum (Num (- 5))) = ''N/A''"
  by (cases pe) auto

theorem pe_rating_classes_witness:
  "fl_le (Num (- 5)) (Num 0) \<and> pe_rating (PyNum (Num (- 5))) = ''N/A''
   \<and> fl_lt (Num 0) (Num 15) \<and> fl_lt (Num 15) (Num 20)
   \<and> pe_rating (PyNum (Num 15)) = ''Excellent''
   \<and> fl_le (Num 20) (Num 25) \<and> fl_le (Num 25) (Num 35)
   \<and> pe_rating (PyNum (Num 25)) = ''Good''
   \<and> fl_lt (Num 35) (Num 40) \<and> pe_rating (PyNum (Num 40)) = ''Poor''"
  using pe_rating_classes [of "Num (- 5)"] pe_rating_classes [of "Num 15"]
    pe_rating_classes [of "Num 25"] pe_rating_classes [of "Num 40"]
  by simp

section \<open>Double rounding\<close>

lemma rint_near: "\<bar>of_int (rint y) - y\<bar> \<le> 1 / 2"
proof -
  have "of_int \<lfloor>y\<rfloor> \<le> y" and "y < of_int \<lfloor>y\<rfloor> + 1"
    by linarith+
  then show ?thesis
    by (auto simp: rint_def Let_def)
qed

text \<open>
  A number whose magnitude, scaled by \<open>2 ^ m\<close>, lies from \<open>2 ^ 52\<close> up to \<open>2 ^ 53\<close>
  is rounded at the quantum \<open>1 / 2 ^ m\<close>.
\<close>

lemma dbl_eval:
  assumes m: "m \<le> 1074" and lo: "2 ^ 52 \<le> \<bar>x\<bar> * 2 ^ m" and hi: "\<bar>x\<bar> * 2 ^ m < 2 ^ 53"
  shows "dbl x = Num (of_int (rint (x * 2 ^ m)) / 2 ^ m)"
proof -
  have x0: "x \<noteq> 0"
    using lo by auto
  then have ax: "0 < \<bar>x\<bar>" by simp
  define e :: int where "e = 52 - int m"
  have p: "(2::real) powr (of_int e - 52) = 1 / 2 ^ m"
    by (simp add: e_def powr_minus powr_realpow inverse_eq_divide)
  have pe: "(2::real) powr (of_int e) = 2 ^ 52 / 2 ^ m"
  proof -
    have "(2::real) powr (of_int e) = 2 powr (52 - real m)"
      by (simp add: e_def)
    also have "\<dots> = 2 powr 52 / 2 powr (real m)"
      by (rule powr_diff)
    also have "\<dots> = 2 ^ 52 / 2 ^ m"
      by (simp add: powr_realpow)
    finally show ?thesis .
  qed
  have "(2::real) powr (of_int e) \<le> \<bar>x\<bar>"
    using lo by (simp add: pe field_simps)
  then have l1: "of_int e \<le> log 2 \<bar>x\<bar>"
    using ax by (simp add: le_log_iff)
  have "\<bar>x\<bar> < 2 powr (of_int e + 1)"
    using hi by (simp add: powr_add pe field_simps)
  then have l2: "log 2 \<bar>x\<bar> < of_int e + 1"
    using ax by (simp add: log_less_iff)
  from l1 l2 have fl: "\<lfloor>log 2 \<bar>x\<bar>\<rfloor> = e"
    by linarith
  have emax: "max e (- 1022) = e"
    using m by (simp add: e_def)
  define y where "y = x * 2 ^ m"
  have ybound: "\<bar>y\<bar> < 2 ^ 53"
    using hi by (simp add: y_def abs_mult)
  have "\<bar>of_int (rint y)\<bar> \<le> \<bar>y\<bar> + 1 / 2"
    using rint_near [of y] by linarith
  with ybound have rb: "\<bar>of_int (rint y) :: real\<bar> < 2 ^ 54"
    by simp
  have "\<bar>of_int (rint y) / 2 ^ m :: real\<bar> \<le> \<bar>of_int (rint y)\<bar>"
    by (simp add: abs_divide field_simps mult_le_cancel_left1)
  also have "\<dots> < 2 ^ 54"
    by (rule rb)
  also have "(2::real) ^ 54 \<le> 2 powr 1024"
  proof -
    have "(2::real) powr 1024 = 2 ^ 1024"
      using powr_realpow [of 2 1024] by simp
    moreover have "(2::real) ^ 54 \<le> 2 ^ 1024"
      by (rule power_increasing) simp_all
    ultimately show ?thesis by simp
  qed
  finally have nov: "\<not> 2 powr 1024 \<le> \<bar>of_int (rint y) / 2 ^ m :: real\<bar>"
    by simp
  show ?thesis
    using x0 nov by (simp add: dbl_def fl emax p Let_def y_def)
qed

text \<open>
  The rounded operations on finite operands, and the percent changes of two pairs of
  closes, step by step: from 100 to 120, and from 160 to 183, where the exact value
  14.375 is a tie and the double computed for it lies just below.
\<close>

lemma d_sub_Num: "d_sub (Num a) (Num b) = dbl (a - b)"
  by (simp add: d_sub_def fl_sub_def)

lemma d_mul_Num: "d_mul (Num a) (Num b) = dbl (a * b)"
  by (simp add: d_mul_def)

lemma d_div_Num: "b \<noteq> 0 \<Longrightarrow> d_div (Num a) (Num b) = dbl (a / b)"
  by (simp add: d_div_def)

lemma round2_nearest_hundredth:
  assumes "d_mul (Num v) (Num 100) = Num t"
  shows "\<exists>k::int. \<bar>of_int k - t\<bar> \<le> 1 / 2 \<and> round2 (Num v) = dbl (of_int k / 100)"
proof (intro exI conjI)
  show "\<bar>of_int (rint t) - t\<bar> \<le> 1 / 2"
    by (rule rint_near)
  show "round2 (Num v) = dbl (of_int (rint t) / 100)"
    using assms by (simp add: round2_def d_div_def)
qed

lemma round2_Num:
  "d_mul (Num v) (Num 100) = Num t \<Longrightarrow> round2 (Num v) = dbl (of_int (rint t) / 100)"
  by (simp add: round2_def d_div_def)

lemma dbl_20: "dbl 20 = Num 20"
  using dbl_eval [of 48 20] by (simp add: rint_def)

lemma dbl_fifth: "dbl (1 / 5) = Num (7205759403792794 / 2 ^ 55)"
  using dbl_eval [of 55 "1 / 5"] by (simp add: rint_def)

lemma dbl_fifth_times_100: "dbl (7205759403792794 / 2 ^ 55 * 100) = Num 20"
  using dbl_eval [of 48 "7205759403792794 / 2 ^ 55 * 100"] by (simp add: rint_def)

lemma dbl_2000: "dbl 2000 = Num 2000"
  using dbl_eval [of 42 2000] by (simp add: rint_def)

lemma pct_change_120_100: "pct_change (Num 120) (Num 100) = Num 20"
proof -
  have "d_sub (Num 120) (Num 100) = Num 20"
    using dbl_20 by (simp add: d_sub_Num)
  then have "d_div (d_sub (Num 120) (Num 100)) (Num 100) = Num (7205759403792794 / 2 ^ 55)"
    using dbl_fifth by (simp add: d_div_Num)
  then have a: "d_mul (d_div (d_sub (Num 120) (Num 100)) (Num 100)) (Num 100) = Num 20"
    using dbl_fifth_times_100 by (simp add: d_mul_Num)
  have "d_mul (Num 20) (Num 100) = Num 2000"
    using dbl_2000 by (simp add: d_mul_Num)
  then have "round2 (Num 20) = dbl (of_int (rint 2000) / 100)"
    by (rule round2_Num)
  also have "\<dots> = Num 20"
    using dbl_20 by (simp add: rint_def)
  finally show ?thesis
    by (simp add: pct_change_def a)
qed

lemma dbl_23: "dbl 23 = Num 23"
  using dbl_eval [of 48 23] by (simp add: rint_def)

lemma dbl_23_160: "dbl (23 / 160) = Num (5179139571476070 / 2 ^ 55)"
  using dbl_eval [of 55 "23 / 160"] by (simp add: rint_def)

lemma dbl_23_160_times_100: "dbl (5179139571476070 / 2 ^ 55 * 100) = Num (8092405580431359 / 2 ^ 49)"
  using dbl_eval [of 49 "5179139571476070 / 2 ^ 55 * 100"] by (simp add: rint_def)

lemma dbl_scaled_1437: "dbl (8092405580431359 / 2 ^ 49 * 100) = Num (6322191859711999 / 2 ^ 42)"
  using dbl_eval [of 42 "8092405580431359 / 2 ^ 49 * 100"] by (simp add: rint_def)

lemma dbl_1437_100: "dbl (1437 / 100) = Num (8089590830664253 / 2 ^ 49)"
  using dbl_eval [of 49 "1437 / 100"] by (simp add: rint_def)

lemma pct_change_183_160: "pct_change (Num 183) (Num 160) = Num (8089590830664253 / 2 ^ 49)"
proof -
  have "d_sub (Num 183) (Num 160) = Num 23"
    using dbl_23 by (simp add: d_sub_Num)
  then have "d_div (d_sub (Num 183) (Num 160)) (Num 160) = Num (5179139571476070 / 2 ^ 55)"
    using dbl_23_160 by (simp add: d_div_Num)
  then have a: "d_mul (d_div (d_sub (Num 183) (Num 160)) (Num 160)) (Num 100)
      = Num (8092405580431359 / 2 ^ 49)"
    using dbl_23_160_times_100 by (simp add: d_mul_Num)
  have "d_mul (Num (8092405580431359 / 2 ^ 49)) (Num 100) = Num (6322191859711999 / 2 ^ 42)"
    using dbl_scaled_1437 by (simp add: d_mul_Num)
  then have "round2 (Num (8092405580431359 / 2 ^ 49))
      = dbl (of_int (rint (6322191859711999 / 2 ^ 42)) / 100)"
    by (rule round2_Num)
  also have "rint (6322191859711999 / 2 ^ 42) = 1437"
    by (simp add: rint_def)
  finally have "round2 (Num (8092405580431359 / 2 ^ 49)) = Num (8089590830664253 / 2 ^ 49)"
    using dbl_1437_100 by simp
  then show ?thesis
    by (simp add: pct_change_def a)
qed

section \<open>Properties of the momentum lines\<close>

text \<open>
  C2. The claim is that the compute layer, and the momentum computation in particular,
  completes without raising for every fundamentals snapshot, also when currentPrice and
  previousClose are both missing. On the empty snapshot both defaults are 0 and the
  division raises \<^verbatim>\<open>ZeroDivisionError\<close>.
\<close>

theorem momentum_missing_prices_raises:
  "momentum Map.empty = Inl ZeroDivisionError"
  by (simp add: momentum_def dict_get_def bind_err_def d_sub_def fl_sub_def dbl_def)

section \<open>Frames: reading and assigning columns\<close>

lemma getcol_setcol: "getcol (setcol df k c) k' = (if k' = k then Inr c else getcol df k')"
  by (simp add: getcol_def setcol_def AList.update_conv')

lemma nrows_setcol: "nrows (setcol df k c) = nrows df"
  by (simp add: setcol_def)

lemma getcol_cases: "(\<exists>close. getcol df k = Inr close) \<or> getcol df k = Inl KeyError"
  by (simp add: getcol_def split: option.splits)

lemma snd_buying_recommendation:
  "snd (buying_recommendation df) = snd (buying_recommendation_body df)"
  by (simp add: buying_recommendation_def split: prod.splits sum.splits)

lemma body_no_close:
  "getcol df ''Close'' = Inl e \<Longrightarrow> buying_recommendation_body df = (Inl e, df)"
  by (simp add: buying_recommendation_body_def)

lemma body_frame:
  "getcol df ''Close'' = Inr close \<Longrightarrow>
   snd (buying_recommendation_body df) =
     setcol (setcol (setcol df ''SMA20'' (sma20 close)) ''EMA20'' (ema20 close))
       ''RSI'' (rsi14 close)"
  by (simp add: buying_recommendation_body_def Let_def)

section \<open>Effect of the scoring on the frame\<close>

text \<open>
  C4, as claimed: the scoring operation leaves the series it was given unchanged. It does
  not: after scoring the one-bar frame, the frame holds three more columns.
\<close>

theorem buying_recommendation_mutates_frame:
  "snd (buying_recommendation (price_frame [Num 100])) \<noteq> price_frame [Num 100]"
  by (simp add: buying_recommendation_def buying_recommendation_body_def price_frame_def
      getcol_def setcol_def Let_def split: prod.splits sum.splits)

text \<open>
  C4, amended. The scoring operation keeps the number of rows and every column other than
  "SMA20", "EMA20" and "RSI" as they were, the close prices among them; when the frame
  has a "Close" column it assigns these three columns on the frame it was given.
\<close>

theorem buying_recommendation_frame_effect:
  "nrows (snd (buying_recommendation df)) = nrows df
   \<and> (\<forall>k. k \<notin> {''SMA20'', ''EMA20'', ''RSI''} \<longrightarrow>
         getcol (snd (buying_recommendation df)) k = getcol df k)
   \<and> (\<forall>close. getcol df ''Close'' = Inr close \<longrightarrow>
         getcol (snd (buying_recommendation df)) ''SMA20'' = Inr (sma20 close)
         \<and> getcol (snd (buying_recommendation df)) ''EMA20'' = Inr (ema20 close)
         \<and> getcol (snd (buying_recommendation df)) ''RSI'' = Inr (rsi14 close))"
proof -
  consider (absent) "getcol df ''Close'' = Inl KeyError"
    | (present) close where "getcol df ''Close'' = Inr close"
    using getcol_cases [of df "''Close''"] by blast
  then show ?thesis
  proof cases
    case absent
    then show ?thesis
      by (simp add: snd_buying_recommendation body_no_close)
  next
    case present
    then show ?thesis
      by (simp add: snd_buying_recommendation body_frame getcol_setcol nrows_setcol)
  qed
qed

theorem buying_recommendation_frame_effect_witness:
  "''Close'' \<notin> {''SMA20'', ''EMA20'', ''RSI''}
   \<and> getcol (price_frame [Num 100]) ''Close'' = Inr [Num 100]
   \<and> getcol (snd (buying_recommendation (price_frame [Num 100]))) ''Close'' = Inr [Num 100]
   \<and> getcol (snd (buying_recommendation (price_frame [Num 100]))) ''SMA20''
       = Inr (sma20 [Num 100])
   \<and> nrows (snd (buying_recommendation (price_frame [Num 100]))) = 1"
proof -
  have h: "getcol (price_frame [Num 100]) ''Close'' = Inr [Num 100]"
    by (simp add: price_frame_def getcol_def)
  have n: "nrows (price_frame [Num 100]) = 1"
    by (simp add: price_frame_def)
  show ?thesis
    using buying_recommendation_frame_effect [of "price_frame [Num 100]"] h n by simp
qed

section \<open>Performance windows\<close>

text \<open>
  C3, as claimed: on the series of exactly 21 bars rising linearly from 100 to 120 the
  "1 Month" entry is 20.0. It is not: 21 bars are not more than 21, and the entry is
  the string "N/A", which is no number.
\<close>

theorem performance_rising21_one_month_unavailable:
  "map_of (projr (performance (price_frame rising21))) ''1 Month'' = Some NA
   \<and> length rising21 = 21 \<and> NA \<noteq> Pct (Num 20)"
  by (simp add: performance_def price_frame_def rising21_def rising_closes_def)

text \<open>
  C3, amended. On the series of exactly 21 bars rising linearly from 100 to 120 the
  three entries "1 Month", "3 Month" and "6 Month" are all unavailable; with one earlier
  bar before them (22 bars) the "1 Month" entry is 20.0 and the other two are unavailable.
\<close>

theorem performance_rising21:
  "performance (price_frame rising21)
     = Inr [(''1 Month'', NA), (''3 Month'', NA), (''6 Month'', NA)]
   \<and> performance (price_frame (x # rising21))
     = Inr [(''1 Month'', Pct (Num 20)), (''3 Month'', NA), (''6 Month'', NA)]"
  by (simp add: performance_def price_frame_def rising21_def rising_closes_def bind_err_def
      getcol_def iloc_def position_def pct_change_120_100)

section \<open>Positions, lengths and the latest row\<close>

lemma wf_frame_length:
  "wf_frame df \<Longrightarrow> getcol df k = Inr c \<Longrightarrow> length c = nrows df"
proof -
  assume wf: "wf_frame df" and g: "getcol df k = Inr c"
  from g have "map_of (columns df) k = Some c"
    by (simp add: getcol_def split: option.splits)
  then have "(k, c) \<in> set (columns df)"
    by (rule map_of_SomeD)
  with wf show ?thesis
    by (auto simp: wf_frame_def list_all_iff)
qed

lemma position_last: "0 < n \<Longrightarrow> position n (- 1) = Inr (n - 1)"
  by (auto simp: position_def nat_diff_distrib')

lemma position_from_end: "0 < d \<Longrightarrow> d \<le> n \<Longrightarrow> position n (- int d) = Inr (n - d)"
  by (auto simp: position_def nat_diff_distrib')

lemma position_empty: "position 0 (- 1) = Inl IndexError"
  by (simp add: position_def)

lemma iloc_last: "xs \<noteq> [] \<Longrightarrow> iloc xs (- 1) = Inr (last xs)"
  by (simp add: iloc_def position_last bind_err_def last_conv_nth)

lemma iloc_from_end: "0 < d \<Longrightarrow> d \<le> length xs \<Longrightarrow> iloc xs (- int d) = Inr (xs ! (length xs - d))"
  by (simp add: iloc_def position_from_end bind_err_def)

lemma performance_step:
  assumes "wf_frame df" "getcol df ''Close'' = Inr close" "0 < d"
  shows "performance_loop df ((d, label) # rest) perf =
     performance_loop df rest
       (AList.update label
          (if d < nrows df
           then Pct (round2 (d_mul (d_div (d_sub (last close) (close ! (length close - d)))
                                          (close ! (length close - d))) (Num 100)))
           else NA) perf)"
proof (cases "d < nrows df")
  case True
  have len: "length close = nrows df"
    using assms(1,2) by (rule wf_frame_length)
  with True assms(3) have ne: "close \<noteq> []" and le: "d \<le> length close"
    by auto
  show ?thesis
    using True assms(2)
    by (simp add: bind_err_def iloc_last [OF ne] iloc_from_end [OF assms(3) le] pct_change_def)
next
  case False
  then show ?thesis by simp
qed

lemma map_of_setcol:
  "map_of (columns (setcol df k c)) k' = (if k' = k then Some c else map_of (columns df) k')"
  by (simp add: setcol_def AList.update_conv')

lemma getcol_Inr_map_of: "getcol df k = Inr c \<Longrightarrow> map_of (columns df) k = Some c"
  by (simp add: getcol_def split: option.splits)

lemma length_prep_values: "length (prep_values xs) = length xs"
  by (simp add: prep_values_def)

lemma prep_values_Num: "prep_values (map Num cs) = map Num cs"
  by (simp add: prep_values_def)

lemma prep_values_NaN_Num: "prep_values (NaN # map Num cs) = NaN # map Num cs"
  by (simp add: prep_values_def)

lemma set_prep_values: "x \<in> set (prep_values xs) \<Longrightarrow> x = NaN \<or> x \<in> set xs"
  by (auto simp: prep_values_def)

lemma length_rolling_mean: "length (rolling_mean w xs) = length xs"
  by (simp add: rolling_mean_def)

lemma length_ewm_loop: "length (ewm_loop a st xs) = length xs"
  by (induction xs arbitrary: st) (simp_all add: Let_def)

lemma length_ewm_mean: "length (ewm_mean n xs) = length xs"
proof (cases "prep_values xs")
  case Nil
  with length_prep_values [of xs] show ?thesis
    by (simp add: ewm_mean_def)
next
  case (Cons x rest)
  with length_prep_values [of xs] show ?thesis
    by (simp add: ewm_mean_def length_ewm_loop)
qed

lemma length_diff: "length (diff xs) = length xs"
  by (simp add: diff_def split: list.splits)

lemma length_mask: "length (mask xs (map f xs) v) = length xs"
  by (simp add: mask_def)

lemma length_sma20: "length (sma20 close) = length close"
  by (simp add: sma20_def length_rolling_mean)

lemma length_ema20: "length (ema20 close) = length close"
  by (simp add: ema20_def length_ewm_mean)

lemma length_up_moves: "length (up_moves delta) = length delta"
  by (simp add: up_moves_def length_mask)

lemma length_down_moves: "length (down_moves delta) = length delta"
  by (simp add: down_moves_def length_mask)

lemma length_rsi14: "length (rsi14 close) = length close"
  by (simp add: rsi14_def Let_def length_rolling_mean length_up_moves length_down_moves
      length_diff)

lemma rolling_mean_nth:
  "i < length xs \<Longrightarrow> rolling_mean w xs ! i = roll_mean_at w (prep_values xs) i"
  by (simp add: rolling_mean_def)

lemma length_trailing: "i < length xs \<Longrightarrow> length (trailing w xs i) = min w (Suc i)"
  by (auto simp: trailing_def)

lemma roll_mean_at_short:
  assumes "i < length xs" and "Suc i < w"
  shows "roll_mean_at w xs i = NaN"
proof -
  have "length (filter (\<lambda>x. x \<noteq> NaN) (trailing w xs i)) \<le> length (trailing w xs i)"
    by (rule length_filter_le)
  also have "\<dots> = min w (Suc i)"
    using assms(1) by (rule length_trailing)
  also have "\<dots> < w"
    using assms(2) by simp
  finally show ?thesis
    by (simp add: roll_mean_at_def)
qed

lemma last_rolling_mean:
  assumes "xs \<noteq> []"
  shows "last (rolling_mean w xs) = roll_mean_at w (prep_values xs) (length xs - 1)"
proof -
  from assms have pos: "0 < length xs" by simp
  then have "rolling_mean w xs \<noteq> []"
    by (simp add: rolling_mean_def)
  then have "last (rolling_mean w xs) = rolling_mean w xs ! (length xs - 1)"
    by (simp add: last_conv_nth length_rolling_mean)
  also have "\<dots> = roll_mean_at w (prep_values xs) (length xs - 1)"
    using pos by (intro rolling_mean_nth) simp
  finally show ?thesis .
qed

lemma last_sma20_short:
  assumes "close \<noteq> []" and "length close < 20"
  shows "last (sma20 close) = NaN"
proof -
  have "last (sma20 close) = roll_mean_at 20 (prep_values close) (length close - 1)"
    using assms(1) by (simp add: sma20_def last_rolling_mean)
  also have "\<dots> = NaN"
  proof (rule roll_mean_at_short)
    from assms(1) have "0 < length close" by simp
    then show "length close - 1 < length (prep_values close)"
      by (simp add: length_prep_values)
    from assms(2) show "Suc (length close - 1) < 20" by simp
  qed
  finally show ?thesis .
qed

lemma body_score:
  assumes wf: "wf_frame df" and g: "getcol df ''Close'' = Inr close" and n: "0 < nrows df"
  shows "fst (buying_recommendation_body df) =
     Inr ((if fl_gt (last close) (last (sma20 close)) then 40 else 0)
     + (if fl_gt (last close) (last (ema20 close)) then 40 else 0)
     + (if fl_lt (last (rsi14 close)) (Num 70) then 20 else 0))"
proof -
  have len: "length close = nrows df"
    using wf g by (rule wf_frame_length)
  with n have ne: "close \<noteq> []" by auto
  have l1: "close ! (nrows df - Suc 0) = last close"
    using ne len by (simp add: last_conv_nth)
  have l2: "sma20 close ! (nrows df - Suc 0) = last (sma20 close)"
    using ne len by (simp add: last_conv_nth length_sma20 flip: length_0_conv)
  have l3: "ema20 close ! (nrows df - Suc 0) = last (ema20 close)"
    using ne len by (simp add: last_conv_nth length_ema20 flip: length_0_conv)
  have l4: "rsi14 close ! (nrows df - Suc 0) = last (rsi14 close)"
    using ne len by (simp add: last_conv_nth length_rsi14 flip: length_0_conv)
  have m: "map_of (columns df) ''Close'' = Some close"
    using g by (rule getcol_Inr_map_of)
  show ?thesis
    using g n
    by (simp add: buying_recommendation_body_def Let_def iloc_row_def nrows_setcol
        position_last bind_err_def score_of_row_def row_get_def map_of_setcol m l1 l2 l3 l4)
qed

lemma body_empty:
  assumes "getcol df ''Close'' = Inr close" and "nrows df = 0"
  shows "fst (buying_recommendation_body df) = Inl IndexError"
  using assms
  by (simp add: buying_recommendation_body_def Let_def iloc_row_def nrows_setcol
      position_empty bind_err_def)

lemma fst_buying_recommendation:
  "fst (buying_recommendation df) =
     (case fst (buying_recommendation_body df) of Inl e \<Rightarrow> 50 | Inr s \<Rightarrow> s)"
  by (simp add: buying_recommendation_def split: prod.splits sum.splits)

section \<open>The performance contract\<close>

text \<open>
  C5. For every price series and each of the pairs (21, "1 Month"), (63, "3 Month"),
  (126, "6 Month"): when the series has strictly more bars than the day count, the label
  is mapped to (latest close - close that many bars from the end) / that close * 100,
  computed in doubles and rounded to 2 decimal places; otherwise it is mapped to the
  marker "N/A". A number and the marker are never equal. Rounding to 2 decimal places
  gives the double nearest to k / 100, where k is the integer nearest to the number
  scaled by 100.
\<close>

theorem performance_windows:
  assumes "wf_frame df" and "getcol df ''Close'' = Inr close"
  shows "performance df =
     Inr (map (\<lambda>(d, label).
            (label,
             if d < nrows df
             then Pct (round2 (d_mul (d_div (d_sub (last close) (close ! (length close - d)))
                                            (close ! (length close - d))) (Num 100)))
             else NA))
          [(21, ''1 Month''), (63, ''3 Month''), (126, ''6 Month'')])
     \<and> (\<forall>x. Pct x \<noteq> NA)
     \<and> (\<forall>v t. d_mul (Num v) (Num 100) = Num t \<longrightarrow>
           (\<exists>k::int. \<bar>of_int k - t\<bar> \<le> 1 / 2 \<and> round2 (Num v) = dbl (of_int k / 100)))"
proof (intro conjI allI impI)
  show "performance df =
     Inr (map (\<lambda>(d, label).
            (label,
             if d < nrows df
             then Pct (round2 (d_mul (d_div (d_sub (last close) (close ! (length close - d)))
                                            (close ! (length close - d))) (Num 100)))
             else NA))
          [(21, ''1 Month''), (63, ''3 Month''), (126, ''6 Month'')])"
    by (simp add: performance_def performance_step [OF assms] del: performance_loop.simps(2))
next
  fix x show "Pct x \<noteq> NA" by simp
next
  fix v t assume "d_mul (Num v) (Num 100) = Num t"
  then show "\<exists>k::int. \<bar>of_int k - t\<bar> \<le> 1 / 2 \<and> round2 (Num v) = dbl (of_int k / 100)"
    by (rule round2_nearest_hundredth)
qed

theorem performance_windows_witness:
  "wf_frame (price_frame climb22)
   \<and> getcol (price_frame climb22) ''Close'' = Inr climb22
   \<and> performance (price_frame climb22)
       = Inr [(''1 Month'', Pct (Num (8089590830664253 / 2 ^ 49))),
              (''3 Month'', NA), (''6 Month'', NA)]
   \<and> d_mul (Num (8092405580431359 / 2 ^ 49)) (Num 100) = Num (6322191859711999 / 2 ^ 42)
   \<and> \<bar>of_int 1437 - 6322191859711999 / 2 ^ 42 :: real\<bar> \<le> 1 / 2
   \<and> round2 (Num (8092405580431359 / 2 ^ 49)) = dbl (of_int 1437 / 100)"
proof -
  have w: "wf_frame (price_frame climb22)"
    by (simp add: wf_frame_def price_frame_def)
  have g: "getcol (price_frame climb22) ''Close'' = Inr climb22"
    by (simp add: getcol_def price_frame_def)
  have n: "nrows (price_frame climb22) = 22"
    by (simp add: price_frame_def climb22_def)
  have l: "last climb22 = Num 183" and o: "climb22 ! (length climb22 - 21) = Num 160"
    by (simp_all add: climb22_def)
  have v: "round2 (d_mul (d_div (d_sub (last climb22) (climb22 ! (length climb22 - 21)))
               (climb22 ! (length climb22 - 21))) (Num 100)) = Num (8089590830664253 / 2 ^ 49)"
    using pct_change_183_160 by (simp only: l o pct_change_def)
  have m: "d_mul (Num (8092405580431359 / 2 ^ 49)) (Num 100)
      = Num (6322191859711999 / 2 ^ 42)"
    using dbl_scaled_1437 by (simp add: d_mul_Num)
  then have r: "round2 (Num (8092405580431359 / 2 ^ 49))
      = dbl (of_int (rint (6322191859711999 / 2 ^ 42)) / 100)"
    by (rule round2_Num)
  have k: "rint (6322191859711999 / 2 ^ 42) = 1437"
    by (simp add: rint_def)
  have b: "\<bar>of_int 1437 - 6322191859711999 / 2 ^ 42 :: real\<bar> \<le> 1 / 2"
    by simp
  note t = performance_windows [OF w g]
  from t n v have p: "performance (price_frame climb22)
       = Inr [(''1 Month'', Pct (Num (8089590830664253 / 2 ^ 49))),
              (''3 Month'', NA), (''6 Month'', NA)]"
    by simp
  show ?thesis
    using w g p m b r k by simp
qed

section \<open>The score\<close>

text \<open>
  C6. Whenever the body of the scoring operation returns a score (the fallback is not
  taken), the score is the sum of 40 if the latest close is above the latest SMA-20,
  40 if it is above the latest EMA-20, and 20 if the latest RSI-14 is below 70; the
  clamp to 100 changes nothing, the score is one of 0, 20, 40, 60, 80, 100 and lies
  in [0, 100], and it is what the operation returns.
\<close>

theorem score_contributions:
  assumes "wf_frame df" and "getcol df ''Close'' = Inr close"
    and "fst (buying_recommendation_body df) = Inr s"
  shows "s = (if fl_gt (last close) (last (sma20 close)) then 40 else 0)
           + (if fl_gt (last close) (last (ema20 close)) then 40 else 0)
           + (if fl_lt (last (rsi14 close)) (Num 70) then 20 else 0)
     \<and> min s 100 = s \<and> s \<in> {0, 20, 40, 60, 80, 100} \<and> 0 \<le> s \<and> s \<le> 100
     \<and> fst (buying_recommendation df) = s"
proof -
  have n: "0 < nrows df"
  proof (rule ccontr)
    assume "\<not> 0 < nrows df"
    then have "nrows df = 0" by simp
    with assms(2) have "fst (buying_recommendation_body df) = Inl IndexError"
      by (rule body_empty)
    with assms(3) show False by simp
  qed
  have "fst (buying_recommendation_body df) =
     Inr ((if fl_gt (last close) (last (sma20 close)) then 40 else 0)
     + (if fl_gt (last close) (last (ema20 close)) then 40 else 0)
     + (if fl_lt (last (rsi14 close)) (Num 70) then 20 else 0))"
    using assms(1,2) n by (rule body_score)
  with assms(3) have s: "s = (if fl_gt (last close) (last (sma20 close)) then 40 else 0)
     + (if fl_gt (last close) (last (ema20 close)) then 40 else 0)
     + (if fl_lt (last (rsi14 close)) (Num 70) then 20 else 0)"
    by simp
  have f: "fst (buying_recommendation df) = s"
    using assms(3) by (simp add: fst_buying_recommendation)
  from s have r: "s \<in> {0, 20, 40, 60, 80, 100}"
    by (simp split: if_splits)
  then have "min s 100 = s \<and> 0 \<le> s \<and> s \<le> 100" by auto
  with s f r show ?thesis by blast
qed

theorem score_contributions_witness:
  "wf_frame (price_frame [Num 100, Num 110])
   \<and> getcol (price_frame [Num 100, Num 110]) ''Close'' = Inr [Num 100, Num 110]
   \<and> fst (buying_recommendation_body (price_frame [Num 100, Num 110])) = Inr 40
   \<and> fst (buying_recommendation (price_frame [Num 100, Num 110])) = 40
   \<and> (40::int) \<in> {0, 20, 40, 60, 80, 100}"
proof -
  have w2: "wf_frame (price_frame [Num 100, Num 110])"
    and g2: "getcol (price_frame [Num 100, Num 110]) ''Close'' = Inr [Num 100, Num 110]"
    by (simp_all add: wf_frame_def price_frame_def getcol_def)
  have b2: "fst (buying_recommendation_body (price_frame [Num 100, Num 110])) = Inr 40"
    by (simp add: buying_recommendation_body_def price_frame_def
      getcol_def setcol_def sma20_def ema20_def rsi14_def rolling_mean_def roll_mean_at_def
      trailing_def ewm_mean_def prep_values_def diff_def mask_def up_moves_def down_moves_def
      rsi_of_rs_def iloc_row_def position_def
      bind_err_def score_of_row_def row_get_def fl_gt_def fl_sub_def upt_rec)
  show ?thesis
    using score_contributions [OF w2 g2 b2] w2 g2 b2 by simp
qed

text \<open>
  C1, as claimed: every series with fewer than 20 bars is scored 50. It is not: two bars,
  100 then 110, are scored 40, the close being above its EMA-20.
\<close>

theorem buying_recommendation_two_bars:
  "nrows (price_frame [Num 100, Num 110]) < 20
   \<and> fst (buying_recommendation (price_frame [Num 100, Num 110])) = 40"
  by (simp add: buying_recommendation_def buying_recommendation_body_def price_frame_def
      getcol_def setcol_def sma20_def ema20_def rsi14_def rolling_mean_def roll_mean_at_def
      trailing_def ewm_mean_def prep_values_def diff_def mask_def up_moves_def down_moves_def
      rsi_of_rs_def iloc_row_def position_def
      bind_err_def score_of_row_def row_get_def fl_gt_def fl_sub_def upt_rec)

text \<open>
  C1, amended. On a frame with fewer than 20 bars the scoring operation returns the
  sentinel 50 when the indicator computation fails, which is when the series is empty
  or has no "Close" column. On 1 to 19 bars nothing fails: the SMA-20 is missing and
  contributes 0, the score is the sum of the EMA-20 and RSI-14 contributions, one of
  0, 20, 40, 60, and never the sentinel.
\<close>

theorem buying_recommendation_short_history:
  assumes "wf_frame df" and "nrows df < 20"
  shows "(nrows df = 0 \<or> getcol df ''Close'' = Inl KeyError \<longrightarrow>
            fst (buying_recommendation df) = 50)
     \<and> (\<forall>close. 0 < nrows df \<and> getcol df ''Close'' = Inr close \<longrightarrow>
            fst (buying_recommendation df) =
              (if fl_gt (last close) (last (ema20 close)) then 40 else 0)
              + (if fl_lt (last (rsi14 close)) (Num 70) then 20 else 0)
            \<and> fst (buying_recommendation df) \<in> {0, 20, 40, 60})"
proof (intro conjI allI impI)
  assume a: "nrows df = 0 \<or> getcol df ''Close'' = Inl KeyError"
  consider (absent) "getcol df ''Close'' = Inl KeyError"
    | (empty) close where "getcol df ''Close'' = Inr close" and "nrows df = 0"
    using a getcol_cases [of df "''Close''"] by blast
  then show "fst (buying_recommendation df) = 50"
  proof cases
    case absent
    then show ?thesis
      by (simp add: fst_buying_recommendation body_no_close)
  next
    case empty
    then show ?thesis
      by (simp add: fst_buying_recommendation body_empty)
  qed
next
  fix close
  assume b: "0 < nrows df \<and> getcol df ''Close'' = Inr close"
  then have n: "0 < nrows df" and g: "getcol df ''Close'' = Inr close"
    by simp_all
  have len: "length close = nrows df"
    using assms(1) g by (rule wf_frame_length)
  have sma: "last (sma20 close) = NaN"
    using n len assms(2) by (intro last_sma20_short) auto
  have "fst (buying_recommendation_body df) =
     Inr ((if fl_gt (last close) (last (sma20 close)) then 40 else 0)
     + (if fl_gt (last close) (last (ema20 close)) then 40 else 0)
     + (if fl_lt (last (rsi14 close)) (Num 70) then 20 else 0))"
    using assms(1) g n by (rule body_score)
  then have s: "fst (buying_recommendation df) =
              (if fl_gt (last close) (last (ema20 close)) then 40 else 0)
              + (if fl_lt (last (rsi14 close)) (Num 70) then 20 else 0)"
    by (simp add: fst_buying_recommendation sma fl_gt_def)
  then show "fst (buying_recommendation df) =
              (if fl_gt (last close) (last (ema20 close)) then 40 else 0)
              + (if fl_lt (last (rsi14 close)) (Num 70) then 20 else 0)" .
  from s show "fst (buying_recommendation df) \<in> {0, 20, 40, 60}"
    by (simp split: if_splits)
qed

theorem buying_recommendation_short_history_witness:
  "wf_frame (price_frame []) \<and> nrows (price_frame []) < 20 \<and> nrows (price_frame []) = 0
   \<and> fst (buying_recommendation (price_frame [])) = 50
   \<and> wf_frame (price_frame [Num 100, Num 110]) \<and> nrows (price_frame [Num 100, Num 110]) < 20
   \<and> 0 < nrows (price_frame [Num 100, Num 110])
   \<and> getcol (price_frame [Num 100, Num 110]) ''Close'' = Inr [Num 100, Num 110]
   \<and> fst (buying_recommendation (price_frame [Num 100, Num 110])) \<in> {0, 20, 40, 60}"
proof -
  have w0: "wf_frame (price_frame [])" and n0: "nrows (price_frame []) < 20"
    by (simp_all add: wf_frame_def price_frame_def)
  have e0: "nrows (price_frame []) = 0"
    by (simp add: price_frame_def)
  have w2: "wf_frame (price_frame [Num 100, Num 110])"
    and n2: "nrows (price_frame [Num 100, Num 110]) < 20"
    and p2: "0 < nrows (price_frame [Num 100, Num 110])"
    and g2: "getcol (price_frame [Num 100, Num 110]) ''Close'' = Inr [Num 100, Num 110]"
    by (simp_all add: wf_frame_def price_frame_def getcol_def)
  show ?thesis
    using buying_recommendation_short_history [OF w0 n0]
      buying_recommendation_short_history [OF w2 n2] w0 n0 e0 w2 n2 p2 g2
    by blast
qed

section \<open>Simple moving average\<close>

lemma fl_sum_Num: "fl_sum (map Num ys) = Num (sum_list ys)"
  by (induction ys) simp_all

lemma filter_obs_Num: "filter (\<lambda>x. x \<noteq> NaN) (map Num ys) = map Num ys"
  by (induction ys) simp_all

lemma trailing_Num: "trailing w (map Num cs) i = map Num (drop (Suc i - w) (take (Suc i) cs))"
  by (simp add: trailing_def take_map drop_map)

lemma roll_mean_at_Num:
  assumes "i < length cs" and "0 < w" and "w \<le> Suc i"
  shows "roll_mean_at w (map Num cs) i
           = Num (sum_list (drop (Suc i - w) (take (Suc i) cs)) / real w)"
proof -
  define ys where "ys = drop (Suc i - w) (take (Suc i) cs)"
  have len: "length ys = w"
    using assms by (simp add: ys_def)
  have obs: "filter (\<lambda>x. x \<noteq> NaN) (trailing w (map Num cs) i) = map Num ys"
    by (simp add: trailing_Num filter_obs_Num ys_def)
  have "roll_mean_at w (map Num cs) i = fl_div (fl_sum (map Num ys)) (Num (real w))"
    by (simp add: roll_mean_at_def obs len)
  also have "\<dots> = Num (sum_list ys / real w)"
    using assms(2) by (simp add: fl_sum_Num)
  finally show ?thesis
    by (simp add: ys_def)
qed

lemma sum_list_window:
  assumes "b \<le> length cs"
  shows "sum_list (drop a (take b cs)) = (\<Sum>j = a..<b. cs ! j)"
proof (cases "a \<le> b")
  case True
  have "sum_list (drop a (take b cs)) = (\<Sum>j = 0..<b - a. drop a (take b cs) ! j)"
    using assms by (simp add: sum_list_sum_nth)
  also have "\<dots> = (\<Sum>j = 0..<b - a. cs ! (j + a))"
    using assms by (intro sum.cong) (auto simp: add.commute)
  also have "\<dots> = (\<Sum>j = 0 + a..<(b - a) + a. cs ! j)"
    by (rule sum.shift_bounds_nat_ivl [symmetric])
  also have "\<dots> = (\<Sum>j = a..<b. cs ! j)"
    using True by simp
  finally show ?thesis .
next
  case False
  then show ?thesis
    using assms by simp
qed

lemma sma20_Num_nth:
  assumes "i < length cs"
  shows "sma20 (map Num cs) ! i =
     (if i < 19 then NaN else Num ((\<Sum>j = i - 19..i. cs ! j) / 20))"
proof (cases "i < 19")
  case True
  then show ?thesis
    using assms
    by (simp add: sma20_def rolling_mean_nth prep_values_Num roll_mean_at_short)
next
  case False
  then have "sma20 (map Num cs) ! i = Num (sum_list (drop (Suc i - 20) (take (Suc i) cs)) / 20)"
    using assms
    by (simp add: sma20_def rolling_mean_nth prep_values_Num roll_mean_at_Num)
  also have "sum_list (drop (Suc i - 20) (take (Suc i) cs)) = (\<Sum>j = Suc i - 20..<Suc i. cs ! j)"
    using assms by (intro sum_list_window) simp
  also have "{Suc i - 20..<Suc i} = {i - 19..i}"
    using False by auto
  finally show ?thesis
    using False by simp
qed

text \<open>
  C9. For every price series, the "SMA20" column that the scoring assigns holds at each
  position i from 19 on the arithmetic mean of the closes at positions i-19 to i, and at
  the positions before 19 no value (NaN); when the series has at least 20 bars, its last
  cell is the mean of the last 20 closes.
\<close>

theorem sma20_is_trailing_mean:
  assumes "getcol df ''Close'' = Inr (map Num cs)"
  shows "getcol (snd (buying_recommendation df)) ''SMA20'' = Inr (sma20 (map Num cs))
     \<and> length (sma20 (map Num cs)) = length cs
     \<and> (\<forall>i<length cs. sma20 (map Num cs) ! i =
           (if i < 19 then NaN else Num ((\<Sum>j = i - 19..i. cs ! j) / 20)))
     \<and> (20 \<le> length cs \<longrightarrow>
           last (sma20 (map Num cs)) = Num (sum_list (drop (length cs - 20) cs) / 20))"
proof (intro conjI allI impI)
  show "getcol (snd (buying_recommendation df)) ''SMA20'' = Inr (sma20 (map Num cs))"
    using assms by (simp add: snd_buying_recommendation body_frame getcol_setcol)
  show "length (sma20 (map Num cs)) = length cs"
    by (simp add: length_sma20)
next
  fix i assume "i < length cs"
  then show "sma20 (map Num cs) ! i =
           (if i < 19 then NaN else Num ((\<Sum>j = i - 19..i. cs ! j) / 20))"
    by (rule sma20_Num_nth)
next
  assume n: "20 \<le> length cs"
  then have ne: "map Num cs \<noteq> []" by auto
  have "last (sma20 (map Num cs)) = roll_mean_at 20 (map Num cs) (length cs - 1)"
    using last_rolling_mean [OF ne, of 20] by (simp add: sma20_def prep_values_Num)
  also have "\<dots> = Num (sum_list (drop (Suc (length cs - 1) - 20) (take (Suc (length cs - 1)) cs)) / real 20)"
    using n by (intro roll_mean_at_Num) auto
  also have "\<dots> = Num (sum_list (drop (length cs - 20) cs) / 20)"
    using n by simp
  finally show "last (sma20 (map Num cs)) = Num (sum_list (drop (length cs - 20) cs) / 20)" .
qed

theorem sma20_is_trailing_mean_witness:
  "getcol (price_frame rising21) ''Close'' = Inr (map Num rising_closes)
   \<and> 20 \<le> length rising_closes \<and> (0::nat) < length rising_closes
   \<and> sma20 (map Num rising_closes) ! 0 = NaN
   \<and> last (sma20 (map Num rising_closes)) = Num (221 / 2)"
proof -
  have g: "getcol (price_frame rising21) ''Close'' = Inr (map Num rising_closes)"
    by (simp add: getcol_def price_frame_def rising21_def)
  have n: "length rising_closes = 21"
    by (simp add: rising_closes_def)
  have v: "sum_list (drop (length rising_closes - 20) rising_closes) / 20 = 221 / 2"
    by (simp add: rising_closes_def)
  show ?thesis
    using sma20_is_trailing_mean [OF g] g n v by simp
qed

section \<open>Exponential moving average\<close>

lemma ewm_step_Num: "ewm_step a (Num e, 1) (Num c) = (Num (c * a + e * (1 - a)), 1)"
proof (cases "e = c")
  case True
  then show ?thesis
    by (simp add: Let_def algebra_simps)
next
  case False
  have "(1 - a) * e + a * c = c * a + e * (1 - a)"
    by (simp add: algebra_simps)
  with False show ?thesis
    by (simp add: Let_def)
qed

lemma ewm_loop_Num_nth:
  "i < length cs \<Longrightarrow>
   \<exists>p. (Num e # ewm_loop a (Num e, 1) (map Num cs)) ! i = Num p
     \<and> ewm_loop a (Num e, 1) (map Num cs) ! i = Num (cs ! i * a + p * (1 - a))"
proof (induction cs arbitrary: e i)
  case Nil
  then show ?case by simp
next
  case (Cons c cs)
  show ?case
  proof (cases i)
    case 0
    then show ?thesis
      by (simp add: ewm_step_Num del: ewm_step.simps)
  next
    case (Suc j)
    with Cons.prems have "j < length cs" by simp
    from Cons.IH [OF this, of "c * a + e * (1 - a)"] Suc show ?thesis
      by (simp add: ewm_step_Num del: ewm_step.simps)
  qed
qed

lemma ewm_loop_constant:
  "ewm_loop a (Num C, 1) (replicate n (Num C)) = replicate n (Num C)"
  by (induction n) simp_all

lemma ema20_Cons:
  "ema20 (Num c # map Num cs) = Num c # ewm_loop (2 / 21) (Num c, 1) (map Num cs)"
proof -
  have "prep_values (Num c # map Num cs) = Num c # map Num cs"
    using prep_values_Num [of "c # cs"] by simp
  then show ?thesis
    by (simp add: ema20_def ewm_mean_def)
qed

lemma ema20_constant: "ema20 (replicate n (Num C)) = replicate n (Num C)"
proof (cases n)
  case 0
  then show ?thesis
    by (simp add: ema20_def ewm_mean_def prep_values_def)
next
  case (Suc m)
  have "ema20 (Num C # map Num (replicate m C)) =
          Num C # ewm_loop (2 / 21) (Num C, 1) (map Num (replicate m C))"
    by (rule ema20_Cons)
  with Suc show ?thesis
    by (simp add: ewm_loop_constant)
qed

text \<open>
  C8. For every price series, the "EMA20" column that the scoring assigns starts with the
  first close, and each later cell is close[i] * \<alpha> + EMA[i-1] * (1 - \<alpha>) with
  \<alpha> = 2/21; on a series whose closes are all equal to C (of any length, so also of
  length 2 or more) every cell is exactly C.
\<close>

theorem ema20_recurrence:
  assumes "getcol df ''Close'' = Inr (map Num cs)"
  shows "getcol (snd (buying_recommendation df)) ''EMA20'' = Inr (ema20 (map Num cs))
     \<and> length (ema20 (map Num cs)) = length cs
     \<and> (cs \<noteq> [] \<longrightarrow> ema20 (map Num cs) ! 0 = Num (cs ! 0))
     \<and> (\<forall>i. 0 < i \<and> i < length cs \<longrightarrow>
          (\<exists>p. ema20 (map Num cs) ! (i - 1) = Num p
             \<and> ema20 (map Num cs) ! i = Num (cs ! i * (2 / 21) + p * (1 - 2 / 21))))
     \<and> ((\<forall>c\<in>set cs. c = C) \<longrightarrow> (\<forall>i<length cs. ema20 (map Num cs) ! i = Num C))"
proof (intro conjI allI impI)
  show "getcol (snd (buying_recommendation df)) ''EMA20'' = Inr (ema20 (map Num cs))"
    using assms by (simp add: snd_buying_recommendation body_frame getcol_setcol)
  show "length (ema20 (map Num cs)) = length cs"
    by (simp add: length_ema20)
next
  assume "cs \<noteq> []"
  then obtain c rest where "cs = c # rest"
    by (cases cs) auto
  then show "ema20 (map Num cs) ! 0 = Num (cs ! 0)"
    by (simp add: ema20_Cons)
next
  fix i assume i: "0 < i \<and> i < length cs"
  then obtain c rest where cs: "cs = c # rest"
    by (cases cs) auto
  from i obtain j where j: "i = Suc j"
    by (cases i) auto
  with i cs have "j < length rest" by simp
  from ewm_loop_Num_nth [OF this, of c "2 / 21"] cs j
  show "\<exists>p. ema20 (map Num cs) ! (i - 1) = Num p
          \<and> ema20 (map Num cs) ! i = Num (cs ! i * (2 / 21) + p * (1 - 2 / 21))"
    by (simp add: ema20_Cons)
next
  fix i assume c: "\<forall>c\<in>set cs. c = C" and i: "i < length cs"
  from c have "replicate (length cs) C = cs"
    by (intro replicate_length_same) simp
  then have "map Num cs = replicate (length cs) (Num C)"
    by (metis map_replicate)
  then show "ema20 (map Num cs) ! i = Num C"
    using i by (simp add: ema20_constant)
qed

theorem ema20_recurrence_witness:
  "getcol (price_frame [Num 100, Num 110]) ''Close'' = Inr (map Num [100, 110])
   \<and> [100, 110 :: real] \<noteq> []
   \<and> ema20 (map Num [100, 110]) ! 0 = Num 100
   \<and> (0::nat) < 1 \<and> 1 < length [100, 110 :: real]
   \<and> ema20 (map Num [100, 110]) ! 1 = Num (2120 / 21)
   \<and> getcol (price_frame [Num 7, Num 7]) ''Close'' = Inr (map Num [7, 7])
   \<and> set [7, 7 :: real] \<subseteq> {7}
   \<and> ema20 (map Num [7, 7]) ! 1 = Num 7"
proof -
  have g: "getcol (price_frame [Num 100, Num 110]) ''Close'' = Inr (map Num [100, 110])"
    by (simp add: getcol_def price_frame_def)
  have h: "getcol (price_frame [Num 7, Num 7]) ''Close'' = Inr (map Num [7, 7])"
    by (simp add: getcol_def price_frame_def)
  note t = ema20_recurrence [OF g, of 0]
  from t have a: "ema20 (map Num [100, 110]) ! 0 = Num 100"
    by simp
  from t have "\<forall>i. 0 < i \<and> i < length [100, 110 :: real] \<longrightarrow>
          (\<exists>p. ema20 (map Num [100, 110]) ! (i - 1) = Num p
             \<and> ema20 (map Num [100, 110]) ! i = Num ([100, 110] ! i * (2 / 21) + p * (1 - 2 / 21)))"
    by blast
  then have "\<exists>p. ema20 (map Num [100, 110]) ! (1 - 1) = Num p
             \<and> ema20 (map Num [100, 110]) ! 1 = Num ([100, 110] ! 1 * (2 / 21) + p * (1 - 2 / 21))"
    by (rule allE [where x = 1]) simp
  then obtain p where p: "ema20 (map Num [100, 110]) ! 0 = Num p"
    and e: "ema20 (map Num [100, 110]) ! 1 = Num (110 * (2 / 21) + p * (1 - 2 / 21))"
    by auto
  from p a have "p = 100" by simp
  with e have b: "ema20 (map Num [100, 110]) ! 1 = Num (2120 / 21)"
    by simp
  from ema20_recurrence [OF h, of 7]
  have c: "ema20 (map Num [7, 7]) ! 1 = Num 7"
    by simp
  show ?thesis
    using a b c g h by simp
qed

section \<open>Relative strength index\<close>

lemma mask_map: "mask xs (map f xs) v = map (\<lambda>x. if f x then v else x) xs"
  by (induction xs) (simp_all add: mask_def)

lemma up_moves_map: "up_moves delta = map (\<lambda>d. if fl_lt d (Num 0) then Num 0 else d) delta"
  by (simp add: up_moves_def mask_map)

lemma down_moves_map:
  "down_moves delta = map (\<lambda>d. fl_neg (if fl_gt d (Num 0) then Num 0 else d)) delta"
  by (simp add: down_moves_def mask_map)

lemma not_neg_up_moves: "x \<in> set (up_moves delta) \<Longrightarrow> not_neg x"
proof -
  assume "x \<in> set (up_moves delta)"
  then have "x \<in> (\<lambda>d. if fl_lt d (Num 0) then Num 0 else d) ` set delta"
    by (simp only: up_moves_map set_map)
  then obtain d where x: "x = (if fl_lt d (Num 0) then Num 0 else d)"
    by blast
  show "not_neg x"
    unfolding x by (cases d) simp_all
qed

lemma not_neg_down_moves: "x \<in> set (down_moves delta) \<Longrightarrow> not_neg x"
proof -
  assume "x \<in> set (down_moves delta)"
  then have "x \<in> (\<lambda>d. fl_neg (if fl_gt d (Num 0) then Num 0 else d)) ` set delta"
    by (simp only: down_moves_map set_map)
  then obtain d where x: "x = fl_neg (if fl_gt d (Num 0) then Num 0 else d)"
    by blast
  show "not_neg x"
    unfolding x by (cases d) (simp_all add: fl_gt_def)
qed

lemma not_neg_add: "not_neg x \<Longrightarrow> not_neg y \<Longrightarrow> not_neg (fl_add x y)"
  by (cases x; cases y) simp_all

lemma not_neg_sum: "(\<And>x. x \<in> set xs \<Longrightarrow> not_neg x) \<Longrightarrow> not_neg (fl_sum xs)"
  by (induction xs) (simp_all add: not_neg_add)

lemma not_neg_div_pos: "not_neg x \<Longrightarrow> 0 < w \<Longrightarrow> not_neg (fl_div x (Num w))"
  by (cases x) simp_all

lemma not_neg_div: "not_neg x \<Longrightarrow> not_neg y \<Longrightarrow> not_neg (fl_div x y)"
  by (cases x; cases y) simp_all

lemma set_trailing: "set (trailing w xs i) \<subseteq> set xs"
proof -
  have "set (trailing w xs i) \<subseteq> set (take (Suc i) xs)"
    unfolding trailing_def by (rule set_drop_subset)
  also have "\<dots> \<subseteq> set xs"
    by (rule set_take_subset)
  finally show ?thesis .
qed

lemma not_neg_roll_mean_at:
  assumes "\<And>x. x \<in> set xs \<Longrightarrow> not_neg x" and "0 < w"
  shows "not_neg (roll_mean_at w xs i)"
proof -
  define obs where "obs = filter (\<lambda>x. x \<noteq> NaN) (trailing w xs i)"
  have sub: "set obs \<subseteq> set xs"
    using set_trailing [of w xs i] by (auto simp: obs_def)
  have s: "not_neg (fl_sum obs)"
    using sub assms(1) by (intro not_neg_sum) auto
  show ?thesis
  proof (cases "length obs < w")
    case True
    then show ?thesis
      by (simp add: roll_mean_at_def obs_def [symmetric])
  next
    case False
    with assms(2) have "0 < length obs" by linarith
    then have "0 < real (length obs)" by simp
    with s have "not_neg (fl_div (fl_sum obs) (Num (real (length obs))))"
      by (rule not_neg_div_pos)
    with False show ?thesis
      by (simp add: roll_mean_at_def obs_def [symmetric])
  qed
qed

lemma rsi_of_rs_range:
  assumes "not_neg r"
  shows "rsi_of_rs r = NaN \<or> (\<exists>v. rsi_of_rs r = Num v \<and> 0 \<le> v \<and> v \<le> 100)"
proof (cases r)
  case (Num a)
  with assms have a: "0 \<le> a" by simp
  then have "100 / (1 + a) \<le> 100 / 1"
    by (intro divide_left_mono) simp_all
  moreover have "0 \<le> 100 / (1 + a)"
    using a by simp
  ultimately show ?thesis
    using Num a by (simp add: rsi_of_rs_def fl_sub_def)
next
  case PInf
  then show ?thesis by (simp add: rsi_of_rs_def fl_sub_def)
next
  case NInf
  with assms show ?thesis by simp
next
  case NaN
  then show ?thesis by (simp add: rsi_of_rs_def fl_sub_def)
qed

lemma rsi14_nth:
  assumes "i < length close"
  shows "rsi14 close ! i =
     rsi_of_rs (fl_div (roll_mean_at 14 (prep_values (up_moves (diff close))) i)
                       (roll_mean_at 14 (prep_values (down_moves (diff close))) i))"
  using assms
  by (simp add: rsi14_def Let_def length_rolling_mean length_up_moves length_down_moves
      length_diff rolling_mean_nth)

lemma rsi14_range:
  assumes "i < length close"
  shows "rsi14 close ! i = NaN \<or> (\<exists>v. rsi14 close ! i = Num v \<and> 0 \<le> v \<and> v \<le> 100)"
proof -
  have u: "not_neg x" if "x \<in> set (prep_values (up_moves (diff close)))" for x
    using set_prep_values [OF that] not_neg_up_moves [of x "diff close"] by auto
  have d: "not_neg x" if "x \<in> set (prep_values (down_moves (diff close)))" for x
    using set_prep_values [OF that] not_neg_down_moves [of x "diff close"] by auto
  have g: "not_neg (roll_mean_at 14 (prep_values (up_moves (diff close))) i)"
    by (rule not_neg_roll_mean_at) (simp_all add: u)
  have l: "not_neg (roll_mean_at 14 (prep_values (down_moves (diff close))) i)"
    by (rule not_neg_roll_mean_at) (simp_all add: d)
  from g l have "not_neg (fl_div (roll_mean_at 14 (prep_values (up_moves (diff close))) i)
                       (roll_mean_at 14 (prep_values (down_moves (diff close))) i))"
    by (rule not_neg_div)
  then show ?thesis
    unfolding rsi14_nth [OF assms] by (rule rsi_of_rs_range)
qed

lemma map2_sub_Num: "map2 fl_sub (map Num xs) (map Num ys) = map Num (map2 (-) xs ys)"
proof (induction xs arbitrary: ys)
  case Nil
  then show ?case by simp
next
  case (Cons x xs)
  then show ?case
    by (cases ys) (simp_all add: fl_sub_def)
qed

lemma diff_Num: "diff (map Num (c # cs)) = NaN # map Num (map2 (-) cs (c # cs))"
proof -
  have "diff (map Num (c # cs)) = NaN # map2 fl_sub (map Num cs) (map Num (c # cs))"
    by (simp add: diff_def)
  then show ?thesis
    by (simp only: map2_sub_Num)
qed

lemma steps_nonneg:
  "sorted (c # cs) \<Longrightarrow> d \<in> set (map2 (-) cs (c # cs)) \<Longrightarrow> 0 \<le> (d::real)"
proof (induction cs arbitrary: c)
  case Nil
  then show ?case by simp
next
  case (Cons x xs)
  from Cons.prems(1) have cx: "c \<le> x" and s: "sorted (x # xs)"
    by simp_all
  from Cons.prems(2) have "d = x - c \<or> d \<in> set (map2 (-) xs (x # xs))"
    by simp
  then show ?case
  proof
    assume "d = x - c"
    with cx show ?thesis by simp
  next
    assume "d \<in> set (map2 (-) xs (x # xs))"
    with s show ?thesis by (rule Cons.IH)
  qed
qed

lemma up_moves_steps:
  assumes "\<forall>d\<in>set ds. 0 \<le> d"
  shows "up_moves (NaN # map Num ds) = NaN # map Num ds"
  using assms by (induction ds) (auto simp: up_moves_map)

lemma down_moves_steps:
  assumes "\<forall>d\<in>set ds. 0 \<le> d"
  shows "down_moves (NaN # map Num ds) = NaN # map Num (map (\<lambda>d. 0) ds)"
  using assms by (induction ds) (auto simp: down_moves_map fl_gt_def)

lemma trailing_Cons:
  assumes "w \<le> i" and "0 < i"
  shows "trailing w (x # zs) i = trailing w zs (i - 1)"
proof -
  from assms have a: "Suc i - w = Suc (i - w)" and b: "Suc (i - Suc 0) = i"
    by simp_all
  show ?thesis
    by (simp add: trailing_def a b)
qed

lemma roll_mean_at_Cons:
  assumes "w \<le> i" and "0 < i"
  shows "roll_mean_at w (x # zs) i = roll_mean_at w zs (i - 1)"
  by (simp only: roll_mean_at_def trailing_Cons [OF assms])

lemma sum_steps: "sum_list (map2 (-) cs (c # cs)) = last (c # cs) - (c::real)"
  by (induction cs arbitrary: c) simp_all

lemma sum_steps_drop:
  "k \<le> length cs \<Longrightarrow>
   sum_list (drop k (map2 (-) cs (c # cs))) = last (c # cs) - ((c::real) # cs) ! k"
proof (induction k arbitrary: c cs)
  case 0
  show ?case
    using sum_steps [of cs c] by simp
next
  case (Suc k)
  then obtain x xs where cs: "cs = x # xs"
    by (cases cs) auto
  with Suc.prems have "k \<le> length xs" by simp
  from Suc.IH [OF this, of x] cs show ?case
    by simp
qed

lemma rsi14_sorted:
  assumes "sorted cs" and "15 \<le> length cs"
  shows "roll_mean_at 14 (up_moves (diff (map Num cs))) (length cs - 1)
           = Num ((last cs - cs ! (length cs - 15)) / 14)"
    and "roll_mean_at 14 (down_moves (diff (map Num cs))) (length cs - 1) = Num 0"
    and "last (rsi14 (map Num cs)) =
           (if cs ! (length cs - 15) < last cs then Num 100 else NaN)"
proof -
  from assms(2) obtain c rest where cs: "cs = c # rest"
    by (cases cs) auto
  define ds where "ds = map2 (-) rest (c # rest)"
  define m where "m = length rest"
  have m: "14 \<le> m" and lds: "length ds = m"
    using assms(2) by (simp_all add: cs m_def ds_def)
  have nn: "\<forall>d\<in>set ds. 0 \<le> d"
    using assms(1) unfolding ds_def cs by (blast intro: steps_nonneg)
  have delta: "diff (map Num cs) = NaN # map Num ds"
    by (simp only: cs ds_def diff_Num)
  have k: "m - 14 \<le> length rest"
    by (simp add: m_def)
  have gsum: "sum_list (drop (m - 14) ds) = last cs - cs ! (m - 14)"
    unfolding ds_def cs by (rule sum_steps_drop [OF k])
  have idx: "length cs - 15 = m - 14" and lst: "length cs - 1 = m"
    by (simp_all add: cs m_def)
  have "roll_mean_at 14 (up_moves (diff (map Num cs))) m
          = roll_mean_at 14 (map Num ds) (m - 1)"
    using m by (simp only: delta up_moves_steps [OF nn]) (rule roll_mean_at_Cons, simp_all)
  also have "\<dots> = Num (sum_list (drop (Suc (m - 1) - 14) (take (Suc (m - 1)) ds)) / real 14)"
    using m lds by (intro roll_mean_at_Num) simp_all
  also have "\<dots> = Num ((last cs - cs ! (m - 14)) / 14)"
    using m lds gsum by simp
  finally have G: "roll_mean_at 14 (up_moves (diff (map Num cs))) m
          = Num ((last cs - cs ! (m - 14)) / 14)" .
  have "roll_mean_at 14 (down_moves (diff (map Num cs))) m
          = roll_mean_at 14 (map Num (map (\<lambda>d. 0) ds)) (m - 1)"
    using m by (simp only: delta down_moves_steps [OF nn]) (rule roll_mean_at_Cons, simp_all)
  also have "\<dots> = Num (sum_list (drop (Suc (m - 1) - 14)
                      (take (Suc (m - 1)) (map (\<lambda>d. 0) ds))) / real 14)"
    using m lds by (intro roll_mean_at_Num) simp_all
  also have "\<dots> = Num 0"
    by (simp add: take_map drop_map)
  finally have L: "roll_mean_at 14 (down_moves (diff (map Num cs))) m = Num 0" .
  from G show "roll_mean_at 14 (up_moves (diff (map Num cs))) (length cs - 1)
           = Num ((last cs - cs ! (length cs - 15)) / 14)"
    by (simp only: idx lst)
  from L show "roll_mean_at 14 (down_moves (diff (map Num cs))) (length cs - 1) = Num 0"
    by (simp only: lst)
  have le: "cs ! (m - 14) \<le> last cs"
  proof -
    have "cs ! (m - 14) \<le> cs ! m"
      using assms(1) by (intro sorted_nth_mono) (simp_all add: cs m_def)
    also have "cs ! m = last cs"
      by (simp add: cs m_def last_conv_nth)
    finally show ?thesis .
  qed
  have ne: "rsi14 (map Num cs) \<noteq> []"
    using length_rsi14 [of "map Num cs"] by (auto simp: cs)
  then have "last (rsi14 (map Num cs)) = rsi14 (map Num cs) ! (length cs - 1)"
    by (simp add: last_conv_nth length_rsi14)
  also have "\<dots> = rsi14 (map Num cs) ! m"
    by (simp only: lst)
  also have "\<dots> = rsi_of_rs (fl_div (roll_mean_at 14 (up_moves (diff (map Num cs))) m)
                       (roll_mean_at 14 (down_moves (diff (map Num cs))) m))"
  proof -
    have pu: "prep_values (up_moves (diff (map Num cs))) = up_moves (diff (map Num cs))"
      by (simp only: delta up_moves_steps [OF nn] prep_values_NaN_Num)
    have pd: "prep_values (down_moves (diff (map Num cs))) = down_moves (diff (map Num cs))"
      by (simp only: delta down_moves_steps [OF nn] prep_values_NaN_Num)
    have "rsi14 (map Num cs) ! m = rsi_of_rs
        (fl_div (roll_mean_at 14 (prep_values (up_moves (diff (map Num cs)))) m)
                (roll_mean_at 14 (prep_values (down_moves (diff (map Num cs)))) m))"
      by (rule rsi14_nth) (simp add: cs m_def)
    then show ?thesis
      by (simp only: pu pd)
  qed
  also have "\<dots> = rsi_of_rs (fl_div (Num ((last cs - cs ! (m - 14)) / 14)) (Num 0))"
    by (simp only: G L)
  also have "\<dots> = (if cs ! (m - 14) < last cs then Num 100 else NaN)"
    using le by (simp add: rsi_of_rs_def fl_sub_def)
  finally show "last (rsi14 (map Num cs)) =
           (if cs ! (length cs - 15) < last cs then Num 100 else NaN)"
    by (simp only: idx)
qed

text \<open>
  C7, as claimed: the RSI-14 is always in [0, 100], and on every non-decreasing series of
  15 closes or more it is exactly 100. It is not: on 15 equal closes, a non-decreasing
  series, the averaged gain and loss are both 0 and the last RSI-14 is NaN.
\<close>

theorem rsi14_flat_series_missing:
  "sorted flat_closes \<and> 15 \<le> length flat_closes
   \<and> getcol (snd (buying_recommendation (price_frame flat15))) ''RSI'' = Inr (rsi14 flat15)
   \<and> last (rsi14 flat15) = NaN \<and> NaN \<noteq> Num 100"
proof -
  have s: "sorted flat_closes" and n: "15 \<le> length flat_closes"
    by (simp_all add: flat_closes_def)
  have g: "getcol (price_frame flat15) ''Close'' = Inr flat15"
    by (simp add: getcol_def price_frame_def)
  have r: "getcol (snd (buying_recommendation (price_frame flat15))) ''RSI'' = Inr (rsi14 flat15)"
    using g by (simp add: snd_buying_recommendation body_frame getcol_setcol)
  have "last (rsi14 flat15) = (if flat_closes ! (length flat_closes - 15) < last flat_closes
          then Num 100 else NaN)"
    unfolding flat15_def using s n by (rule rsi14_sorted(3))
  also have "\<dots> = NaN"
    by (simp add: flat_closes_def)
  finally show ?thesis
    using s n r by simp
qed

text \<open>
  C7, amended. Every cell of the "RSI" column that the scoring assigns is either missing
  (NaN) or a number in [0, 100]. On every non-decreasing series of 15 finite closes or
  more the averaged loss at the last position is zero, and the last RSI-14 is exactly
  100 when the last close is above the close 14 bars before it, and missing (NaN, from
  0/0) when the two are equal. Nothing is raised.
\<close>

theorem rsi14_range_and_saturation:
  assumes "getcol df ''Close'' = Inr close"
  shows "getcol (snd (buying_recommendation df)) ''RSI'' = Inr (rsi14 close)
     \<and> length (rsi14 close) = length close
     \<and> (\<forall>i<length close.
           rsi14 close ! i = NaN \<or> (\<exists>v. rsi14 close ! i = Num v \<and> 0 \<le> v \<and> v \<le> 100))
     \<and> (\<forall>cs. close = map Num cs \<and> sorted cs \<and> 15 \<le> length cs \<longrightarrow>
           roll_mean_at 14 (down_moves (diff close)) (length cs - 1) = Num 0
           \<and> last (rsi14 close) =
               (if cs ! (length cs - 15) < last cs then Num 100 else NaN))"
proof (intro conjI allI impI)
  show "getcol (snd (buying_recommendation df)) ''RSI'' = Inr (rsi14 close)"
    using assms by (simp add: snd_buying_recommendation body_frame getcol_setcol)
  show "length (rsi14 close) = length close"
    by (rule length_rsi14)
next
  fix i assume "i < length close"
  then show "rsi14 close ! i = NaN \<or> (\<exists>v. rsi14 close ! i = Num v \<and> 0 \<le> v \<and> v \<le> 100)"
    by (rule rsi14_range)
next
  fix cs assume a: "close = map Num cs \<and> sorted cs \<and> 15 \<le> length cs"
  then have "sorted cs" and "15 \<le> length cs" and c: "close = map Num cs"
    by simp_all
  then have "roll_mean_at 14 (down_moves (diff (map Num cs))) (length cs - 1) = Num 0"
    by (intro rsi14_sorted(2))
  with c show "roll_mean_at 14 (down_moves (diff close)) (length cs - 1) = Num 0"
    by (simp only:)
next
  fix cs assume a: "close = map Num cs \<and> sorted cs \<and> 15 \<le> length cs"
  then show "last (rsi14 close) = (if cs ! (length cs - 15) < last cs then Num 100 else NaN)"
    by (simp add: rsi14_sorted(3))
qed

theorem rsi14_range_and_saturation_witness:
  "getcol (price_frame rising21) ''Close'' = Inr rising21
   \<and> rising21 = map Num rising_closes \<and> sorted rising_closes \<and> 15 \<le> length rising_closes
   \<and> 20 < length rising21
   \<and> getcol (snd (buying_recommendation (price_frame rising21))) ''RSI'' = Inr (rsi14 rising21)
   \<and> (rsi14 rising21 ! 20 = NaN
        \<or> (\<exists>v. rsi14 rising21 ! 20 = Num v \<and> 0 \<le> v \<and> v \<le> 100))
   \<and> last (rsi14 rising21) = Num 100"
proof -
  have g: "getcol (price_frame rising21) ''Close'' = Inr rising21"
    by (simp add: getcol_def price_frame_def)
  have m: "rising21 = map Num rising_closes"
    by (simp add: rising21_def)
  have s: "sorted rising_closes" and n: "15 \<le> length rising_closes"
    by (simp_all add: rising_closes_def)
  have l: "20 < length rising21"
    by (simp add: rising21_def rising_closes_def)
  have v: "rising_closes ! (length rising_closes - 15) < last rising_closes"
    by (simp add: rising_closes_def)
  note t = rsi14_range_and_saturation [OF g]
  from t have r: "getcol (snd (buying_recommendation (price_frame rising21))) ''RSI''
      = Inr (rsi14 rising21)"
    by blast
  from t l have i: "rsi14 rising21 ! 20 = NaN
        \<or> (\<exists>v. rsi14 rising21 ! 20 = Num v \<and> 0 \<le> v \<and> v \<le> 100)"
    by blast
  from t m s n have "last (rsi14 rising21) =
      (if rising_closes ! (length rising_closes - 15) < last rising_closes then Num 100 else NaN)"
    by blast
  with v have e: "last (rsi14 rising21) = Num 100"
    by simp
  show ?thesis
    using g m s n l r i e by blast
qed

end
